theory Spec2Isabelle
  imports Complex_Main "HOL-Library.AList" "HOL-Library.Sublist"
begin

section \<open>Conventions of the embedding\<close>

text \<open>
  The simulator is Python. Its \<open>float\<close> and \<open>int\<close> quantities are embedded as exact
  numbers (\<^typ>\<open>real\<close>, \<^typ>\<open>int\<close>, \<^typ>\<open>nat\<close>): rounding error, NaN and the
  infinities of IEEE arithmetic are outside the model, except where the source itself
  produces \<open>float("inf")\<close> as a result value, which is an explicit constructor.
  Objects are records that are passed in and returned updated; a \<open>dict\<close> whose keys are
  data is an association list in insertion order; every exception the source can raise is
  a value of \<open>py_error\<close>.
\<close>

datatype py_error = ZeroDivisionError | TypeError | KeyError | AttributeError | IndexError

text \<open>Sequencing of computations that may raise.\<close>

definition bind_err :: "('e + 'a) \<Rightarrow> ('a \<Rightarrow> 'e + 'b) \<Rightarrow> 'e + 'b" where
  "bind_err m f = (case m of Inl e \<Rightarrow> Inl e | Inr x \<Rightarrow> f x)"

section \<open>device/battery\_model.py\<close>

record battery_config =
  cfg_capacity_mah :: real
  cfg_voltage :: real
  cfg_current_draw_ma :: "(string \<times> real) list"
  cfg_warning_thresholds :: "real list"

record BatteryModel =
  capacity_mah :: real
  voltage :: real
  current_draw_ma :: "(string \<times> real) list"
  warning_thresholds :: "real list"
  remaining_mah :: real
  total_consumed_mah :: real
  energy_breakdown :: "(string \<times> real) list"
  warnings_triggered :: "real set"
  depleted :: bool
  drain_history :: "real list"

text \<open>\<open>BatteryModel.__init__\<close>: \<open>sorted(..., reverse=True)\<close> is \<open>rev (sort ...)\<close>.\<close>

definition BatteryModel_init :: "battery_config \<Rightarrow> BatteryModel" where
  "BatteryModel_init c =
     \<lparr> capacity_mah = cfg_capacity_mah c,
       voltage = cfg_voltage c,
       current_draw_ma = cfg_current_draw_ma c,
       warning_thresholds = rev (sort (cfg_warning_thresholds c)),
       remaining_mah = cfg_capacity_mah c,
       total_consumed_mah = 0,
       energy_breakdown =
         [(''sensing'', 0), (''processing'', 0), (''transmission'', 0), (''idle'', 0)],
       warnings_triggered = {},
       depleted = False,
       drain_history = [] \<rparr>"

text \<open>\<open>d.get(k, default)\<close> on a dictionary.\<close>

definition dict_get :: "('k \<times> 'v) list \<Rightarrow> 'k \<Rightarrow> 'v \<Rightarrow> 'v" where
  "dict_get d k dflt = (case map_of d k of Some v \<Rightarrow> v | None \<Rightarrow> dflt)"

text \<open>\<open>BatteryModel.consume(operation, duration_s)\<close>.\<close>

definition consume :: "string \<Rightarrow> real \<Rightarrow> BatteryModel \<Rightarrow> BatteryModel" where
  "consume operation duration_s b =
     (if depleted b then b
      else
        let current_ma = dict_get (current_draw_ma b) operation 0;
            consumed_mah = current_ma * (duration_s / 3600);
            r = max 0 (remaining_mah b - consumed_mah)
        in b \<lparr> remaining_mah := r,
               total_consumed_mah := total_consumed_mah b + consumed_mah,
               energy_breakdown :=
                 AList.update operation
                   (dict_get (energy_breakdown b) operation 0 + consumed_mah)
                   (energy_breakdown b),
               depleted := (if r \<le> 0 then True else depleted b) \<rparr>)"

text \<open>
  \<open>BatteryModel.tick(active_operations, time_step_s)\<close>. The argument \<open>None\<close> and the
  empty list take the same branch of \<open>if active_operations:\<close>, so both are \<open>[]\<close> here.
  The value the method returns is the field \<open>remaining_mah\<close> of the state returned here.
\<close>

definition BatteryModel_tick :: "string list \<Rightarrow> real \<Rightarrow> BatteryModel \<Rightarrow> BatteryModel" where
  "BatteryModel_tick active_operations time_step_s b =
     (if depleted b then b \<lparr> drain_history := drain_history b @ [remaining_mah b] \<rparr>
      else
        let b' = (if active_operations \<noteq> []
                  then foldl (\<lambda>s op. consume op time_step_s s) b active_operations
                  else consume ''idle'' time_step_s b)
        in b' \<lparr> drain_history := drain_history b' @ [remaining_mah b'] \<rparr>)"

text \<open>\<open>BatteryModel.get_percentage\<close>; the division raises when the capacity is zero.\<close>

definition get_percentage :: "BatteryModel \<Rightarrow> py_error + real" where
  "get_percentage b =
     (if capacity_mah b = 0 then Inl ZeroDivisionError
      else Inr ((remaining_mah b / capacity_mah b) * 100))"

text \<open>
  \<open>BatteryModel.check_warnings\<close>: the loop over the thresholds, carrying the set of
  triggered thresholds and the list of new warnings.
\<close>

fun check_loop :: "real \<Rightarrow> real list \<Rightarrow> real set \<Rightarrow> real list \<Rightarrow> real list \<times> real set" where
  "check_loop current_pct [] trig new_warnings = (new_warnings, trig)"
| "check_loop current_pct (threshold # ths) trig new_warnings =
     (if current_pct \<le> threshold \<and> threshold \<notin> trig
      then check_loop current_pct ths (insert threshold trig) (new_warnings @ [threshold])
      else check_loop current_pct ths trig new_warnings)"

definition check_warnings :: "BatteryModel \<Rightarrow> py_error + (real list \<times> BatteryModel)" where
  "check_warnings b =
     (if capacity_mah b = 0 then Inl ZeroDivisionError
      else
        let current_pct = remaining_mah b / capacity_mah b;
            (new_warnings, trig) =
               check_loop current_pct (warning_thresholds b) (warnings_triggered b) []
        in Inr (new_warnings, b \<lparr> warnings_triggered := trig \<rparr>))"

text \<open>A call of the battery's interface, and a run of calls on one battery.\<close>

datatype battery_call =
    Consume string real
  | Tick "string list" real


fun battery_step :: "BatteryModel \<Rightarrow> battery_call \<Rightarrow> BatteryModel" where
  "battery_step b (Consume operation d) = consume operation d b"
| "battery_step b (Tick ops d) = BatteryModel_tick ops d b"




text \<open>
  A run in which \<open>check_warnings\<close> is called between the drains, as
  \<open>SensorNode.tick\<close> does after every \<open>battery.tick\<close>. The output has one entry per
  event: the list \<open>check_warnings\<close> returned, and \<open>[]\<close> for a drain.
\<close>

datatype battery_event = Drain battery_call | Check

fun event_step :: "BatteryModel \<Rightarrow> battery_event \<Rightarrow> py_error + (real list \<times> BatteryModel)" where
  "event_step b (Drain cl) = Inr ([], battery_step b cl)"
| "event_step b Check = check_warnings b"

fun events_run ::
  "BatteryModel \<Rightarrow> battery_event list \<Rightarrow> py_error + (real list list \<times> BatteryModel)" where
  "events_run b [] = Inr ([], b)"
| "events_run b (e # es) =
     (case event_step b e of
        Inl x \<Rightarrow> Inl x
      | Inr (ws, b') \<Rightarrow>
          (case events_run b' es of
             Inl x \<Rightarrow> Inl x
           | Inr (out, b'') \<Rightarrow> Inr (ws # out, b'')))"

section \<open>The random generator\<close>

text \<open>
  Every stochastic draw of the simulator goes through the module-level generator of
  numpy, which is global mutable state. Here the generator state is a value of an
  arbitrary type \<open>'g\<close> that each drawing function takes and returns; the library's own
  functions are the fields of a record, so that every result holds for any generator.
  \<open>np_seed s\<close> is the state \<open>np.random.seed(s)\<close> installs.
\<close>

record 'g numpy =
  np_seed :: "int \<Rightarrow> 'g"
  np_normal :: "real \<Rightarrow> real \<Rightarrow> 'g \<Rightarrow> real \<times> 'g"
  np_random :: "'g \<Rightarrow> real \<times> 'g"
  np_uniform :: "real \<Rightarrow> real \<Rightarrow> 'g \<Rightarrow> real \<times> 'g"
  np_choice :: "real list \<Rightarrow> 'g \<Rightarrow> real \<times> 'g"

section \<open>device/cpu\_model.py\<close>


record CPUModel =
  clock_mhz :: real
  max_cycles_per_tick :: real
  task_costs :: "(string \<times> real) list"
  current_utilization :: real
  cycles_used_this_tick :: real
  task_queue :: "(string \<times> real) list"
  total_cycles_used :: real
  peak_utilization :: real
  overload_events :: nat
  consecutive_overload_ticks :: nat
  cpu_utilization_history :: "real list"


definition schedule_task :: "string \<Rightarrow> CPUModel \<Rightarrow> CPUModel" where
  "schedule_task task_type c =
     (let cost = dict_get (task_costs c) (task_type @ ''_cycles'') 0
      in c \<lparr> task_queue := task_queue c @ [(task_type, cost)] \<rparr>)"


section \<open>device/memory\_model.py\<close>

record memory_config =
  cfg_total_ram_kb :: real
  cfg_base_usage_kb :: real
  cfg_per_reading_buffer_kb :: real
  cfg_max_buffer_readings :: int
  cfg_leak_enabled :: bool
  cfg_leak_rate_kb_per_minute :: real

record MemoryModel =
  total_ram_kb :: real
  base_usage_kb :: real
  per_reading_buffer_kb :: real
  max_buffer_readings :: int
  leak_enabled :: bool
  leak_rate_kb_per_minute :: real
  current_usage_kb :: real
  buffer_count :: int
  leaked_kb :: real
  peak_usage_kb :: real
  oom_events :: nat
  usage_history :: "real list"

definition MemoryModel_init :: "memory_config \<Rightarrow> MemoryModel" where
  "MemoryModel_init c =
     \<lparr> total_ram_kb = cfg_total_ram_kb c,
       base_usage_kb = cfg_base_usage_kb c,
       per_reading_buffer_kb = cfg_per_reading_buffer_kb c,
       max_buffer_readings = cfg_max_buffer_readings c,
       leak_enabled = cfg_leak_enabled c,
       leak_rate_kb_per_minute = cfg_leak_rate_kb_per_minute c,
       current_usage_kb = cfg_base_usage_kb c,
       buffer_count = 0,
       leaked_kb = 0,
       peak_usage_kb = cfg_base_usage_kb c,
       oom_events = 0,
       usage_history = [] \<rparr>"

text \<open>\<open>MemoryModel._update_usage\<close>.\<close>

definition update_usage :: "MemoryModel \<Rightarrow> MemoryModel" where
  "update_usage m =
     (let buffer_usage = of_int (buffer_count m) * per_reading_buffer_kb m;
          usage = base_usage_kb m + buffer_usage + leaked_kb m;
          capped = (usage \<ge> total_ram_kb m);
          usage' = (if capped then total_ram_kb m else usage)
      in m \<lparr> current_usage_kb := usage',
             oom_events := (if capped then oom_events m + 1 else oom_events m),
             peak_usage_kb := (if usage' > peak_usage_kb m then usage' else peak_usage_kb m) \<rparr>)"

definition allocate_sensor_buffer :: "MemoryModel \<Rightarrow> MemoryModel" where
  "allocate_sensor_buffer m =
     (if buffer_count m < max_buffer_readings m
      then update_usage (m \<lparr> buffer_count := buffer_count m + 1 \<rparr>)
      else m)"

text \<open>\<open>MemoryModel.free_sensor_buffers(count)\<close>; \<open>None\<close> frees all of them.\<close>

definition free_sensor_buffers :: "int option \<Rightarrow> MemoryModel \<Rightarrow> MemoryModel" where
  "free_sensor_buffers count m =
     (let n = (case count of None \<Rightarrow> buffer_count m | Some k \<Rightarrow> k)
      in update_usage (m \<lparr> buffer_count := max 0 (buffer_count m - n) \<rparr>))"

definition MemoryModel_tick :: "real \<Rightarrow> MemoryModel \<Rightarrow> MemoryModel" where
  "MemoryModel_tick time_step_s m =
     (let m1 = (if leak_enabled m \<and> leak_rate_kb_per_minute m > 0
                then m \<lparr> leaked_kb := leaked_kb m + leak_rate_kb_per_minute m * (time_step_s / 60) \<rparr>
                else m);
          m2 = update_usage m1
      in m2 \<lparr> usage_history := usage_history m2 @ [current_usage_kb m2] \<rparr>)"


section \<open>device/network\_model.py\<close>


record NetworkModel =
  net_type :: string
  max_bandwidth_kbps :: real
  max_payload_bytes :: int
  base_packet_loss_rate :: real
  congestion_threshold :: real
  congested_packet_loss_rate :: real
  bytes_sent_this_tick :: int
  total_bytes_sent :: int
  total_packets_sent :: nat
  total_packets_lost :: nat
  current_bandwidth_utilization :: real
  peak_bandwidth_utilization :: real
  congestion_events :: nat
  net_utilization_history :: "real list"


text \<open>
  The dictionary \<open>transmit\<close> returns, and the one \<open>SensorNode.transmit_data\<close> returns
  for an inactive device (\<open>{"success": False, "reason": "device_inactive"}\<close>).
\<close>

datatype tx_result =
    DeviceInactive
  | TxResult (tx_success: bool) (tx_bytes_sent: int) (tx_packet_loss: bool) (tx_congested: bool)

text \<open>\<open>result.get("success", False)\<close>.\<close>

fun tx_ok :: "tx_result \<Rightarrow> bool" where
  "tx_ok DeviceInactive = False"
| "tx_ok (TxResult s n l c) = s"

text \<open>\<open>NetworkModel.transmit(payload_bytes)\<close>; one draw of \<open>np.random.random()\<close>.\<close>

definition transmit :: "'g numpy \<Rightarrow> int \<Rightarrow> NetworkModel \<times> 'g \<Rightarrow> tx_result \<times> NetworkModel \<times> 'g" where
  "transmit N payload_bytes ng =
     (let (n, g) = ng;
          is_congested = (current_bandwidth_utilization n \<ge> congestion_threshold n);
          loss_rate = (if is_congested then congested_packet_loss_rate n
                       else base_packet_loss_rate n);
          (x, g') = np_random N g;
          packet_lost = (x < loss_rate)
      in if packet_lost
         then (TxResult False 0 True is_congested,
               n \<lparr> total_packets_lost := total_packets_lost n + 1,
                   total_packets_sent := total_packets_sent n + 1 \<rparr>, g')
         else
           let actual_bytes = min payload_bytes (max_payload_bytes n)
           in (TxResult True actual_bytes False is_congested,
               n \<lparr> bytes_sent_this_tick := bytes_sent_this_tick n + actual_bytes,
                   total_bytes_sent := total_bytes_sent n + actual_bytes,
                   total_packets_sent := total_packets_sent n + 1 \<rparr>, g'))"


definition get_packet_loss_rate :: "NetworkModel \<Rightarrow> real" where
  "get_packet_loss_rate n =
     (if total_packets_sent n = 0 then 0
      else of_nat (total_packets_lost n) / of_nat (total_packets_sent n))"

section \<open>Python values\<close>

text \<open>
  A device state snapshot is a nested dictionary (\<open>SensorNode.get_full_state\<close>) that the
  twin, the sync strategies and the fault detector read with \<open>get\<close>, \<open>in\<close> and
  indexing. Its values are embedded as \<open>pyval\<close>; a dictionary is the list of its items in
  insertion order, with distinct keys.
\<close>

datatype pyval =
    PNone
  | PBool bool
  | PInt int
  | PFloat real
  | PStr string
  | PList "pyval list"
  | PDict "(string \<times> pyval) list"

type_synonym pydict = "(string \<times> pyval) list"


text \<open>
  The number an object stands for in arithmetic and comparisons: \<open>bool\<close> is a subclass
  of \<open>int\<close>; every other non-number makes the operation raise \<open>TypeError\<close>.
\<close>

fun py_num :: "pyval \<Rightarrow> py_error + real" where
  "py_num (PBool b) = Inr (if b then 1 else 0)"
| "py_num (PInt i) = Inr (of_int i)"
| "py_num (PFloat r) = Inr r"
| "py_num v = Inl TypeError"

text \<open>\<open>isinstance(v, (int, float))\<close>.\<close>

fun is_number :: "pyval \<Rightarrow> bool" where
  "is_number (PBool b) = True"
| "is_number (PInt i) = True"
| "is_number (PFloat r) = True"
| "is_number v = False"




text \<open>
  \<open>round(x, n)\<close> on exact numbers: the nearest multiple of \<open>10^-n\<close>, a tie going to the
  even one.
\<close>

definition round_half_even :: "real \<Rightarrow> int" where
  "round_half_even x =
     (let f = \<lfloor>x\<rfloor>; d = x - of_int f
      in if d < 1 / 2 then f else if d > 1 / 2 then f + 1 else if even f then f else f + 1)"

definition py_round :: "real \<Rightarrow> nat \<Rightarrow> real" where
  "py_round x n = of_int (round_half_even (x * 10 ^ n)) / 10 ^ n"

section \<open>twin/digital\_twin.py\<close>

record DigitalTwin =
  device_state :: "pydict option"
  predicted_state :: "pydict option"
  state_history :: "(int \<times> pydict \<times> real) list"
  drift_history :: "real list"
  total_syncs :: nat
  last_sync_tick :: int
  sync_success_count :: nat
  sync_fail_count :: nat
  accuracy_history :: "real list"
  current_drift :: real

definition DigitalTwin_init :: DigitalTwin where
  "DigitalTwin_init =
     \<lparr> device_state = None, predicted_state = None, state_history = [], drift_history = [],
       total_syncs = 0, last_sync_tick = 0, sync_success_count = 0, sync_fail_count = 0,
       accuracy_history = [], current_drift = 0 \<rparr>"









definition get_avg_accuracy :: "DigitalTwin \<Rightarrow> real" where
  "get_avg_accuracy t =
     (if accuracy_history t = [] then 1
      else sum_list (accuracy_history t) / of_nat (length (accuracy_history t)))"

definition get_sync_success_rate :: "DigitalTwin \<Rightarrow> real" where
  "get_sync_success_rate t =
     (if total_syncs t = 0 then 1
      else of_nat (sync_success_count t) / of_nat (total_syncs t))"




section \<open>The drift metric in words\<close>












section \<open>sync/delta\_sync.py\<close>

text \<open>The payload dictionaries of the four strategies, by their \<open>type\<close> entry.\<close>

datatype payload =
    FullStatePayload (payload_data: pydict)
  | DeltaPayload (payload_data: pydict) (fields_changed: nat) (fields_total: nat)
  | AdaptivePayload (interval_used: int) (payload_data: pydict)
  | EventDrivenPayload (payload_data: pydict)

record DeltaSync =
  ds_interval_s :: int
  delta_threshold :: real
  ds_last_sync_tick :: pyval
  last_synced_state :: "pydict option"

definition DeltaSync_init :: "int \<Rightarrow> real \<Rightarrow> DeltaSync" where
  "DeltaSync_init interval threshold =
     \<lparr> ds_interval_s = interval, delta_threshold = threshold,
       ds_last_sync_tick = PInt 0, last_synced_state = None \<rparr>"

text \<open>
  \<open>DeltaSync._flatten(d, pfx, result)\<close> on the items of \<open>d\<close>; \<open>result[k] = v\<close> keeps
  the position of a key that is already there. A \<open>bool\<close> is an \<open>int\<close> for \<open>isinstance\<close>.
\<close>

fun flatten :: "pydict \<Rightarrow> string \<Rightarrow> pydict \<Rightarrow> pydict" where
  "flatten [] pfx result = result"
| "flatten ((key, value) # rest) pfx result =
     (let full_key = (if pfx \<noteq> [] then pfx @ ''.'' @ key else key)
      in flatten rest pfx
           (case value of
              PBool b \<Rightarrow> AList.update full_key value result
            | PInt i \<Rightarrow> AList.update full_key value result
            | PFloat r \<Rightarrow> AList.update full_key value result
            | PDict d \<Rightarrow> flatten d full_key result
            | _ \<Rightarrow> result))"

definition extract_numerics :: "pydict \<Rightarrow> pydict" where
  "extract_numerics state = flatten state [] []"

text \<open>\<open>DeltaSync._changed_significantly(old, new)\<close>.\<close>

definition changed_significantly :: "real \<Rightarrow> real \<Rightarrow> real \<Rightarrow> bool" where
  "changed_significantly threshold old new =
     (if old = 0 then new \<noteq> 0 else \<bar>new - old\<bar> / \<bar>old\<bar> > threshold)"

text \<open>The loop of \<open>prepare_payload\<close> over \<open>current.items()\<close>, building \<open>delta\<close>.\<close>

fun delta_loop :: "real \<Rightarrow> pydict \<Rightarrow> pydict \<Rightarrow> pydict \<Rightarrow> py_error + pydict" where
  "delta_loop threshold prev [] delta = Inr delta"
| "delta_loop threshold prev ((key, value) # rest) delta =
     (case dict_get prev key PNone of
        PNone \<Rightarrow> delta_loop threshold prev rest (AList.update key value delta)
      | old_value \<Rightarrow>
          bind_err (py_num old_value) (\<lambda>old.
          bind_err (py_num value) (\<lambda>new.
            if changed_significantly threshold old new
            then delta_loop threshold prev rest (AList.update key value delta)
            else delta_loop threshold prev rest delta)))"

text \<open>\<open>a + b\<close> for an object \<open>a\<close> and an integer \<open>b\<close>.\<close>

fun py_add_int :: "pyval \<Rightarrow> int \<Rightarrow> py_error + pyval" where
  "py_add_int (PBool b) i = Inr (PInt ((if b then 1 else 0) + i))"
| "py_add_int (PInt j) i = Inr (PInt (j + i))"
| "py_add_int (PFloat r) i = Inr (PFloat (r + of_int i))"
| "py_add_int v i = Inl TypeError"

text \<open>
  \<open>DeltaSync.prepare_payload(device_state)\<close>. The default of the second
  \<open>device_state.get("tick", ...)\<close> is evaluated before the call, whether or not the key
  is present.
\<close>

definition prepare_payload :: "pydict \<Rightarrow> DeltaSync \<Rightarrow> py_error + (payload \<times> DeltaSync)" where
  "prepare_payload dstate s =
     (case last_synced_state s of
        None \<Rightarrow>
          Inr (FullStatePayload dstate,
               s \<lparr> last_synced_state := Some (extract_numerics dstate),
                   ds_last_sync_tick := dict_get dstate ''tick'' (PInt 0) \<rparr>)
      | Some prev \<Rightarrow>
          let current = extract_numerics dstate
          in bind_err (delta_loop (delta_threshold s) prev current []) (\<lambda>delta.
             bind_err (py_add_int (ds_last_sync_tick s) (ds_interval_s s)) (\<lambda>dflt.
               Inr (DeltaPayload delta (length delta) (length current),
                    s \<lparr> last_synced_state := Some current,
                        ds_last_sync_tick := dict_get dstate ''tick'' dflt \<rparr>))))"

text \<open>The payloads of successive calls on one strategy object.\<close>

fun payloads :: "DeltaSync \<Rightarrow> pydict list \<Rightarrow> py_error + payload list" where
  "payloads s [] = Inr []"
| "payloads s (st # sts) =
     bind_err (prepare_payload st s) (\<lambda>(p, s').
     bind_err (payloads s' sts) (\<lambda>ps. Inr (p # ps)))"

text \<open>
  The keys a delta carries. As the specification words it: the keys whose relative change
  from the last-synced value exceeds the threshold. As the code has it: those, and every
  key that the last-synced snapshot does not have.
\<close>

definition num_of :: "pyval \<Rightarrow> real" where
  "num_of v = (case py_num v of Inr r \<Rightarrow> r | Inl e \<Rightarrow> 0)"

definition delta_as_specified :: "real \<Rightarrow> pydict \<Rightarrow> pydict \<Rightarrow> pydict" where
  "delta_as_specified threshold prev current =
     filter (\<lambda>(key, value).
        case map_of prev key of
          Some old \<Rightarrow> changed_significantly threshold (num_of old) (num_of value)
        | None \<Rightarrow> False) current"

definition delta_as_coded :: "real \<Rightarrow> pydict \<Rightarrow> pydict \<Rightarrow> pydict" where
  "delta_as_coded threshold prev current =
     filter (\<lambda>(key, value).
        case map_of prev key of
          Some old \<Rightarrow> changed_significantly threshold (num_of old) (num_of value)
        | None \<Rightarrow> True) current"

text \<open>Snapshots whose \<open>tick\<close> entry, if any, is a number.\<close>

definition numeric_tick :: "pydict \<Rightarrow> bool" where
  "numeric_tick st = (case map_of st ''tick'' of None \<Rightarrow> True | Some v \<Rightarrow> is_number v)"

section \<open>Auxiliary definitions for the properties\<close>

text \<open>
  The memory states the model is meant for: a positive amount of RAM, and no negative
  base usage, buffer size, buffer count or leak. \<open>MemoryModel_init\<close> yields such a state
  from a configuration with these properties, and every operation keeps it.
\<close>

definition memory_ok :: "MemoryModel \<Rightarrow> bool" where
  "memory_ok m \<longleftrightarrow>
     0 < total_ram_kb m \<and> 0 \<le> base_usage_kb m \<and> 0 \<le> per_reading_buffer_kb m
     \<and> 0 \<le> buffer_count m \<and> 0 \<le> leaked_kb m"


section \<open>Battery: bounds and the depletion latch\<close>




lemma consume_frame:
  "capacity_mah (consume operation d b) = capacity_mah b"
  "current_draw_ma (consume operation d b) = current_draw_ma b"
  "warning_thresholds (consume operation d b) = warning_thresholds b"
  "warnings_triggered (consume operation d b) = warnings_triggered b"
  by (simp_all add: consume_def Let_def)

lemma consume_latch: "depleted b \<Longrightarrow> depleted (consume operation d b)"
  by (simp add: consume_def Let_def)



lemma foldl_consume_latch:
  "depleted b \<Longrightarrow> depleted (foldl (\<lambda>s op. consume op d s) b ops)"
  by (induction ops arbitrary: b) (simp_all add: consume_latch)

lemma foldl_consume_frame:
  "capacity_mah (foldl (\<lambda>s op. consume op d s) b ops) = capacity_mah b"
  "current_draw_ma (foldl (\<lambda>s op. consume op d s) b ops) = current_draw_ma b"
  "warning_thresholds (foldl (\<lambda>s op. consume op d s) b ops) = warning_thresholds b"
  "warnings_triggered (foldl (\<lambda>s op. consume op d s) b ops) = warnings_triggered b"
  by (induction ops arbitrary: b) (simp_all add: consume_frame)


















section \<open>Battery: the warning latch\<close>

lemma check_loop_spec:
  "check_loop p ths trig acc = (ws, trig') \<Longrightarrow>
     \<exists>new. ws = acc @ new \<and> trig' = trig \<union> set new \<and> distinct new
        \<and> set new = {t \<in> set ths. p \<le> t \<and> t \<notin> trig}"
proof (induction ths arbitrary: trig acc)
  case Nil
  then show ?case by simp
next
  case (Cons t ths)
  show ?case
  proof (cases "p \<le> t \<and> t \<notin> trig")
    case True
    with Cons.prems have "check_loop p ths (insert t trig) (acc @ [t]) = (ws, trig')" by simp
    from Cons.IH[OF this] obtain new where n: "ws = (acc @ [t]) @ new"
      "trig' = insert t trig \<union> set new" "distinct new"
      "set new = {s \<in> set ths. p \<le> s \<and> s \<notin> insert t trig}" by blast
    show ?thesis
      by (rule exI[of _ "t # new"]) (use n True in auto)
  next
    case False
    with Cons.prems have "check_loop p ths trig acc = (ws, trig')" by auto
    from Cons.IH[OF this] obtain new where n: "ws = acc @ new"
      "trig' = trig \<union> set new" "distinct new"
      "set new = {s \<in> set ths. p \<le> s \<and> s \<notin> trig}" by blast
    show ?thesis
      by (rule exI[of _ new]) (use n False in auto)
  qed
qed

lemma check_warnings_spec:
  assumes "check_warnings b = Inr (ws, b')"
  shows "set ws = {t \<in> set (warning_thresholds b).
                    remaining_mah b / capacity_mah b \<le> t \<and> t \<notin> warnings_triggered b}"
    and "distinct ws"
    and "warnings_triggered b' = warnings_triggered b \<union> set ws"
    and "b' = b \<lparr> warnings_triggered := warnings_triggered b' \<rparr>"
proof -
  obtain w tr where cl: "check_loop (remaining_mah b / capacity_mah b) (warning_thresholds b)
       (warnings_triggered b) [] = (w, tr)" by fastforce
  with assms have eq: "ws = w" "b' = b \<lparr> warnings_triggered := tr \<rparr>"
    by (auto simp: check_warnings_def Let_def split: if_splits)
  from check_loop_spec[OF cl] obtain new where n: "w = [] @ new"
     "tr = warnings_triggered b \<union> set new" "distinct new"
     "set new = {t \<in> set (warning_thresholds b).
                    remaining_mah b / capacity_mah b \<le> t \<and> t \<notin> warnings_triggered b}" by blast
  show "set ws = {t \<in> set (warning_thresholds b).
                    remaining_mah b / capacity_mah b \<le> t \<and> t \<notin> warnings_triggered b}"
    using n eq by simp
  show "distinct ws" using n eq by simp
  show "warnings_triggered b' = warnings_triggered b \<union> set ws" using n eq by simp
  show "b' = b \<lparr> warnings_triggered := warnings_triggered b' \<rparr>" using eq by simp
qed

lemma check_warnings_total:
  "capacity_mah b \<noteq> 0 \<Longrightarrow> \<exists>ws b'. check_warnings b = Inr (ws, b')"
  by (simp add: check_warnings_def Let_def split: prod.splits)


lemma battery_step_frame:
  "capacity_mah (battery_step b cl) = capacity_mah b"
  "warning_thresholds (battery_step b cl) = warning_thresholds b"
  "warnings_triggered (battery_step b cl) = warnings_triggered b"
  by (cases cl; simp add: consume_frame foldl_consume_frame BatteryModel_tick_def Let_def)+

lemma event_step_spec:
  assumes "event_step b e = Inr (ws, b')"
  shows "capacity_mah b' = capacity_mah b"
    and "warning_thresholds b' = warning_thresholds b"
    and "warnings_triggered b' = warnings_triggered b \<union> set ws"
    and "distinct ws"
    and "set ws \<inter> warnings_triggered b = {}"
proof -
  show "capacity_mah b' = capacity_mah b"
  proof (cases e)
    case (Drain cl) with assms show ?thesis by (auto simp: battery_step_frame)
  next
    case Check
    with assms check_warnings_spec(4)[of b ws b'] have "b' = b\<lparr>warnings_triggered := warnings_triggered b'\<rparr>" by simp
    then have "capacity_mah b' = capacity_mah (b\<lparr>warnings_triggered := warnings_triggered b'\<rparr>)" by simp
    then show ?thesis by simp
  qed
  show "warning_thresholds b' = warning_thresholds b"
  proof (cases e)
    case (Drain cl) with assms show ?thesis by (auto simp: battery_step_frame)
  next
    case Check
    with assms check_warnings_spec(4)[of b ws b'] have "b' = b\<lparr>warnings_triggered := warnings_triggered b'\<rparr>" by simp
    then have "warning_thresholds b' = warning_thresholds (b\<lparr>warnings_triggered := warnings_triggered b'\<rparr>)" by simp
    then show ?thesis by simp
  qed
  show "warnings_triggered b' = warnings_triggered b \<union> set ws"
    using assms by (cases e) (auto simp: battery_step_frame check_warnings_spec(3))
  show "distinct ws"
    using assms by (cases e) (auto simp: check_warnings_spec(2))
  show "set ws \<inter> warnings_triggered b = {}"
    using assms check_warnings_spec(1)[of b ws b'] by (cases e) auto
qed

lemma events_run_Cons_Inr:
  "events_run b (e # es) = Inr (outs, b'') \<longleftrightarrow>
     (\<exists>ws b' out. event_step b e = Inr (ws, b') \<and> events_run b' es = Inr (out, b'') \<and> outs = ws # out)"
  by (auto split: sum.splits)

lemma events_run_spec:
  "events_run b es = Inr (outs, b') \<Longrightarrow>
     length outs = length es \<and> capacity_mah b' = capacity_mah b
     \<and> warning_thresholds b' = warning_thresholds b
     \<and> warnings_triggered b' = warnings_triggered b \<union> set (concat outs)
     \<and> distinct (concat outs) \<and> set (concat outs) \<inter> warnings_triggered b = {}"
proof (induction es arbitrary: b outs)
  case Nil
  then show ?case by auto
next
  case (Cons e es)
  from Cons.prems obtain ws b1 out where
    st: "event_step b e = Inr (ws, b1)" and rn: "events_run b1 es = Inr (out, b')"
    and o: "outs = ws # out"
    unfolding events_run_Cons_Inr by blast
  note s = event_step_spec[OF st]
  from Cons.IH[OF rn] have ih: "length out = length es" "capacity_mah b' = capacity_mah b1"
    "warning_thresholds b' = warning_thresholds b1"
    "warnings_triggered b' = warnings_triggered b1 \<union> set (concat out)"
    "distinct (concat out)" "set (concat out) \<inter> warnings_triggered b1 = {}" by simp_all
  show ?case using s ih o by auto
qed

lemma events_run_append:
  "events_run b (pre @ post) =
     (case events_run b pre of
        Inl x \<Rightarrow> Inl x
      | Inr (o1, b1) \<Rightarrow>
          (case events_run b1 post of
             Inl x \<Rightarrow> Inl x
           | Inr (o2, b2) \<Rightarrow> Inr (o1 @ o2, b2)))"
  by (induction pre arbitrary: b) (auto split: sum.splits)

lemma events_run_total:
  "capacity_mah b \<noteq> 0 \<Longrightarrow> \<exists>outs b'. events_run b es = Inr (outs, b')"
proof (induction es arbitrary: b)
  case Nil
  then show ?case by simp
next
  case (Cons e es)
  have "\<exists>ws b1. event_step b e = Inr (ws, b1)"
    using Cons.prems check_warnings_total[of b] by (cases e) auto
  then obtain ws b1 where st: "event_step b e = Inr (ws, b1)" by blast
  then have "capacity_mah b1 \<noteq> 0" using event_step_spec(1)[OF st] Cons.prems by simp
  from Cons.IH[OF this] obtain out b2 where "events_run b1 es = Inr (out, b2)" by blast
  with st show ?case by simp
qed

text \<open>What one check in the middle of a run returns.\<close>
lemma events_run_at_check:
  assumes run: "events_run b (pre @ Check # post) = Inr (outs, b')"
    and pre: "events_run b pre = Inr (outs1, b1)"
  shows "set (outs ! length pre) =
           {t \<in> set (warning_thresholds b).
              remaining_mah b1 / capacity_mah b \<le> t \<and> t \<notin> warnings_triggered b \<union> set (concat outs1)}"
    and "warnings_triggered b1 \<subseteq> warnings_triggered b'"
    and "set (concat outs1) \<subseteq> set (concat outs)"
    and "set (outs ! length pre) \<subseteq> set (concat outs)"
proof -
  from run pre obtain o2 where r2: "events_run b1 (Check # post) = Inr (o2, b')" and o: "outs = outs1 @ o2"
    by (auto simp: events_run_append split: sum.splits)
  from r2 obtain ws b2 out where cw: "check_warnings b1 = Inr (ws, b2)"
    and r3: "events_run b2 post = Inr (out, b')" and o2: "o2 = ws # out"
    unfolding events_run_Cons_Inr by auto
  note p = events_run_spec[OF pre]
  have len: "length outs1 = length pre" using p by simp
  then have nth: "outs ! length pre = ws" using o o2 by (simp add: nth_append)
  show "set (outs ! length pre) =
           {t \<in> set (warning_thresholds b).
              remaining_mah b1 / capacity_mah b \<le> t \<and> t \<notin> warnings_triggered b \<union> set (concat outs1)}"
    using check_warnings_spec(1)[OF cw] p nth by auto
  show "warnings_triggered b1 \<subseteq> warnings_triggered b'"
    using events_run_spec[OF r2] by auto
  show "set (concat outs1) \<subseteq> set (concat outs)" using o by auto
  show "set (outs ! length pre) \<subseteq> set (concat outs)" using nth o o2 by auto
qed


lemma count_list_distinct:
  "distinct xs \<Longrightarrow> count_list xs x = (if x \<in> set xs then 1 else 0)"
  by (induction xs) auto

lemma events_run_take:
  assumes "events_run b es = Inr (outs, b')"
  shows "\<exists>b1. events_run b (take i es) = Inr (take i outs, b1)"
proof -
  have "events_run b (take i es @ drop i es) = Inr (outs, b')" using assms by simp
  then obtain o1 b1 o2 where a: "events_run b (take i es) = Inr (o1, b1)" and o: "outs = o1 @ o2"
    unfolding events_run_append by (auto split: sum.splits)
  have "length o1 = length (take i es)" using events_run_spec[OF a] by simp
  moreover have "length outs = length es" using events_run_spec[OF assms] by simp
  ultimately have "take i outs = o1" using o by (simp add: min_def split: if_splits)
  with a show ?thesis by blast
qed

lemma events_run_drain_nth:
  "events_run b es = Inr (outs, b') \<Longrightarrow> i < length es \<Longrightarrow> es ! i = Drain cl \<Longrightarrow> outs ! i = []"
proof (induction es arbitrary: b outs i)
  case Nil
  then show ?case by simp
next
  case (Cons e es)
  from Cons.prems(1) obtain ws b1 out where
    st: "event_step b e = Inr (ws, b1)" and rn: "events_run b1 es = Inr (out, b')"
    and o: "outs = ws # out"
    unfolding events_run_Cons_Inr by blast
  show ?case
  proof (cases i)
    case 0
    with Cons.prems st o show ?thesis by auto
  next
    case (Suc j)
    with Cons.prems Cons.IH[OF rn, of j] o show ?thesis by simp
  qed
qed

text \<open>
  Claim C8, as the code has it. In every run of drains and checks on a battery with
  non-zero capacity, a threshold \<open>t\<close> is returned by \<open>check_warnings\<close> at most once;
  it is returned exactly once if and only if it is a configured threshold and the battery
  fraction is at or below it at some check of the run (so not at all in a run that never
  gets that low). The check that returns it is the first one at which the fraction is at
  or below it: a check returns \<open>t\<close> iff \<open>t\<close> is configured, the fraction is at or below
  \<open>t\<close>, and no earlier check returned it. The set \<open>warnings_triggered\<close> only grows.
\<close>

theorem warning_latch:
  assumes "cfg_capacity_mah c \<noteq> 0"
  shows "\<exists>outs b'. events_run (BatteryModel_init c) es = Inr (outs, b')
     \<and> count_list (concat outs) t \<le> 1
     \<and> (count_list (concat outs) t = 1 \<longleftrightarrow>
          t \<in> set (cfg_warning_thresholds c) \<and>
          (\<exists>pre post outs1 b1. es = pre @ Check # post
              \<and> events_run (BatteryModel_init c) pre = Inr (outs1, b1)
              \<and> remaining_mah b1 / cfg_capacity_mah c \<le> t))
     \<and> (\<forall>pre post outs1 b1. es = pre @ Check # post
              \<and> events_run (BatteryModel_init c) pre = Inr (outs1, b1) \<longrightarrow>
          (t \<in> set (outs ! length pre) \<longleftrightarrow>
             t \<in> set (cfg_warning_thresholds c) \<and> remaining_mah b1 / cfg_capacity_mah c \<le> t
             \<and> t \<notin> set (concat outs1)))
     \<and> (\<forall>pre post outs1 b1. es = pre @ post
              \<and> events_run (BatteryModel_init c) pre = Inr (outs1, b1) \<longrightarrow>
          warnings_triggered b1 \<subseteq> warnings_triggered b')"
proof -
  let ?b = "BatteryModel_init c"
  have b0: "capacity_mah ?b = cfg_capacity_mah c" "warnings_triggered ?b = {}"
    "set (warning_thresholds ?b) = set (cfg_warning_thresholds c)"
    by (simp_all add: BatteryModel_init_def)
  from events_run_total[of ?b es] assms b0 obtain outs b' where
    run: "events_run ?b es = Inr (outs, b')" by auto
  note sp = events_run_spec[OF run]
  have cnt: "count_list (concat outs) t = (if t \<in> set (concat outs) then 1 else 0)"
    using sp by (simp add: count_list_distinct)
  have at: "t \<in> set (outs ! length pre) \<longleftrightarrow>
             t \<in> set (cfg_warning_thresholds c) \<and> remaining_mah b1 / cfg_capacity_mah c \<le> t
             \<and> t \<notin> set (concat outs1)"
    and sub: "set (concat outs1) \<subseteq> set (concat outs)"
    and here: "set (outs ! length pre) \<subseteq> set (concat outs)"
    if "es = pre @ Check # post" "events_run ?b pre = Inr (outs1, b1)" for pre post outs1 b1
    using events_run_at_check[of ?b pre post outs b' outs1 b1] run that b0 by auto
  have grow: "warnings_triggered b1 \<subseteq> warnings_triggered b'"
    if "es = pre @ post" "events_run ?b pre = Inr (outs1, b1)" for pre post outs1 b1
  proof -
    from run that obtain o2 where "events_run b1 post = Inr (o2, b')"
      by (auto simp: events_run_append split: sum.splits)
    from events_run_spec[OF this] show ?thesis by auto
  qed
  have fired_iff: "t \<in> set (concat outs) \<longleftrightarrow>
          t \<in> set (cfg_warning_thresholds c) \<and>
          (\<exists>pre post outs1 b1. es = pre @ Check # post
              \<and> events_run ?b pre = Inr (outs1, b1)
              \<and> remaining_mah b1 / cfg_capacity_mah c \<le> t)" (is "?L \<longleftrightarrow> ?T \<and> ?E")
  proof
    assume ?L
    then obtain ws where "ws \<in> set outs" "t \<in> set ws" by auto
    then obtain i where i: "i < length outs" "t \<in> set (outs ! i)"
      by (auto simp: in_set_conv_nth)
    have li: "i < length es" using i sp by simp
    have chk: "es ! i = Check"
    proof (cases "es ! i")
      case (Drain cl)
      from events_run_drain_nth[OF run li this] i show ?thesis by simp
    qed simp
    have split: "es = take i es @ Check # drop (Suc i) es"
      using li chk by (metis id_take_nth_drop)
    from events_run_take[OF run, of i] obtain b1 where
      pre: "events_run ?b (take i es) = Inr (take i outs, b1)" by blast
    have "length (take i es) = i" using li by simp
    with at[OF split pre] i have "?T" "remaining_mah b1 / cfg_capacity_mah c \<le> t" by auto
    with split pre show "?T \<and> ?E" by blast
  next
    assume r: "?T \<and> ?E"
    then obtain pre post outs1 b1 where s: "es = pre @ Check # post"
      "events_run ?b pre = Inr (outs1, b1)" "remaining_mah b1 / cfg_capacity_mah c \<le> t" by blast
    show ?L
    proof (cases "t \<in> set (concat outs1)")
      case True
      with sub[OF s(1,2)] show ?thesis by blast
    next
      case False
      with at[OF s(1,2)] r s(3) have "t \<in> set (outs ! length pre)" by simp
      with here[OF s(1,2)] show ?thesis by blast
    qed
  qed
  show ?thesis
    apply (rule exI[of _ outs], rule exI[of _ b'])
    using run cnt fired_iff at grow by (simp; blast)
qed


theorem warning_latch_witness:
  "cfg_capacity_mah \<lparr> cfg_capacity_mah = 10, cfg_voltage = 3,
       cfg_current_draw_ma = [(''idle'', 18000)], cfg_warning_thresholds = [1/5, 1/2] \<rparr> \<noteq> 0
   \<and> map_sum id fst (events_run (BatteryModel_init \<lparr> cfg_capacity_mah = 10, cfg_voltage = 3,
       cfg_current_draw_ma = [(''idle'', 18000)], cfg_warning_thresholds = [1/5, 1/2] \<rparr>)
         [Check, Drain (Tick [] 1), Check, Check]) = Inr [[], [], [1/2], []]"
  using warning_latch[of "\<lparr> cfg_capacity_mah = 10, cfg_voltage = 3,
       cfg_current_draw_ma = [(''idle'', 18000)], cfg_warning_thresholds = [1/5, 1/2] \<rparr>"
       "[Check, Drain (Tick [] 1), Check, Check]" "1/2"]
  by (simp add: BatteryModel_init_def BatteryModel_tick_def consume_def dict_get_def
        check_warnings_def Let_def)

text \<open>
  The statement "the warning fires exactly once across the run" fails in a run that
  never reaches the threshold: one idle tick on a full 1000 mAh battery, then a check,
  with the single threshold 0.2. Neither event returns a warning.
\<close>

theorem warning_latch_counterexample:
  "map_sum id fst (events_run (BatteryModel_init \<lparr> cfg_capacity_mah = 1000, cfg_voltage = 3,
       cfg_current_draw_ma = [(''idle'', 1)], cfg_warning_thresholds = [1/5] \<rparr>)
         [Drain (Tick [] 1), Check]) = Inr [[], []]"
  by (simp add: BatteryModel_init_def BatteryModel_tick_def consume_def dict_get_def
        check_warnings_def Let_def)
section \<open>Clamping of the tick steps\<close>










lemma memory_ok_init:
  "0 < cfg_total_ram_kb c \<Longrightarrow> 0 \<le> cfg_base_usage_kb c \<Longrightarrow> 0 \<le> cfg_per_reading_buffer_kb c
     \<Longrightarrow> memory_ok (MemoryModel_init c)"
  by (simp add: memory_ok_def MemoryModel_init_def)

lemma memory_ok_update_usage: "memory_ok (update_usage m) = memory_ok m"
  by (simp add: memory_ok_def update_usage_def Let_def)

lemma memory_ok_allocate: "memory_ok m \<Longrightarrow> memory_ok (allocate_sensor_buffer m)"
  by (simp add: allocate_sensor_buffer_def memory_ok_update_usage) (simp add: memory_ok_def)

lemma memory_ok_free: "memory_ok m \<Longrightarrow> memory_ok (free_sensor_buffers k m)"
  by (simp add: free_sensor_buffers_def memory_ok_update_usage Let_def) (simp add: memory_ok_def)

lemma memory_ok_tick: "memory_ok m \<Longrightarrow> 0 \<le> dt \<Longrightarrow> memory_ok (MemoryModel_tick dt m)"
  by (simp add: MemoryModel_tick_def Let_def memory_ok_def update_usage_def)

lemma transmit_bytes_nonneg:
  "0 \<le> bytes_sent_this_tick n \<Longrightarrow> 0 \<le> payload \<Longrightarrow> 0 \<le> max_payload_bytes n
     \<Longrightarrow> 0 \<le> bytes_sent_this_tick (fst (snd (transmit N payload (n, g))))"
  by (simp add: transmit_def Let_def split: prod.splits)



section \<open>The twin's summaries before any history\<close>

text \<open>
  Claim C10. \<open>get_avg_accuracy\<close> returns 1 when \<open>accuracy_history\<close> is empty and
  \<open>get_sync_success_rate\<close> returns 1 when \<open>total_syncs\<close> is 0, as in the twin that
  \<open>DigitalTwin.__init__\<close> builds.
\<close>

theorem twin_summary_defaults:
  "(accuracy_history t = [] \<longrightarrow> get_avg_accuracy t = 1)
   \<and> (total_syncs t = 0 \<longrightarrow> get_sync_success_rate t = 1)"
  by (simp add: get_avg_accuracy_def get_sync_success_rate_def)

theorem twin_summary_defaults_witness:
  "accuracy_history DigitalTwin_init = [] \<and> total_syncs DigitalTwin_init = 0
   \<and> get_avg_accuracy DigitalTwin_init = 1 \<and> get_sync_success_rate DigitalTwin_init = 1"
  using twin_summary_defaults[of DigitalTwin_init]
  by (simp add: DigitalTwin_init_def)
section \<open>The twin's drift metric\<close>












end
